theory Spec2Isabelle
  imports Complex_Main "HOL-Library.Sublist"
begin

section \<open>The Basic Iterative Method of \<^verbatim>\<open>art/attacks/iterative_method.py\<close>\<close>

text \<open>
  The class \<^verbatim>\<open>BasicIterativeMethod\<close> drives a single-step attack for a bounded number
  of iterations over a shrinking list of active sample indices. The embedding follows
  the Python line by line: the attack object is a record, every \<^verbatim>\<open>raise\<close> and every
  numpy indexing or shape failure is a value of a sum type, the numpy arrays live in a
  store of arrays addressed by number (so that \<^verbatim>\<open>x.copy()\<close> and the in-place writes
  \<^verbatim>\<open>adv_x[active_indices] = ...\<close> are what they are in the source), and the calls
  made to the collaborators are logged in the order the source makes them.
\<close>

subsection \<open>Values and errors\<close>

text \<open>The order of the norm: \<^verbatim>\<open>np.inf\<close>, 1 or 2.\<close>

datatype norm_order = LInf | L1 | L2

text \<open>
  A Python number as \<^verbatim>\<open>max_iter\<close> receives it: an \<^verbatim>\<open>int\<close> or a finite \<^verbatim>\<open>float\<close>.
  \<^verbatim>\<open>int(...)\<close> truncates a float towards zero; \<^verbatim>\<open>range(...)\<close> accepts an \<^verbatim>\<open>int\<close> only.
\<close>

datatype number = IntV int | FloatV real

fun num_val :: "number \<Rightarrow> real" where
  "num_val (IntV n) = of_int n"
| "num_val (FloatV r) = r"

fun py_int :: "number \<Rightarrow> int" where
  "py_int (IntV n) = n"
| "py_int (FloatV r) = (if 0 \<le> r then \<lfloor>r\<rfloor> else \<lceil>r\<rceil>)"

text \<open>
  The exceptions. The first three are the \<^verbatim>\<open>ValueError\<close>s this file raises, told apart
  by their message; \<open>EpsNotPositive\<close> is the one of the base class; the others are
  raised by Python and numpy themselves.
\<close>

datatype error =
    EpsStepTooLarge
  | MaxIterNotPositive
  | TargetLabelsRequired
  | EpsNotPositive
  | TypeError
  | IndexError
  | ShapeError
  | EmptyArgmax

fun invalid_configuration :: "error \<Rightarrow> bool" where
  "invalid_configuration EpsStepTooLarge = True"
| "invalid_configuration MaxIterNotPositive = True"
| "invalid_configuration TargetLabelsRequired = True"
| "invalid_configuration EpsNotPositive = True"
| "invalid_configuration _ = False"

subsection \<open>The attack object and the keyword arguments\<close>

record attack =
  p_norm :: norm_order
  eps :: real
  eps_step :: real
  max_iter :: number
  targeted :: bool
  random_init :: bool

text \<open>
  \<^verbatim>\<open>**kwargs\<close>: each key is present or not. For \<^verbatim>\<open>y\<close>, \<open>None\<close> stands for both an
  absent key and an explicit \<^verbatim>\<open>None\<close>, which line 86 treats alike.
\<close>

record 's kwargs =
  kw_norm :: "norm_order option"
  kw_eps :: "real option"
  kw_eps_step :: "real option"
  kw_max_iter :: "number option"
  kw_targeted :: "bool option"
  kw_random_init :: "bool option"
  kw_y :: "'s list list option"

definition no_kwargs :: "'s kwargs" where
  "no_kwargs = \<lparr>kw_norm = None, kw_eps = None, kw_eps_step = None, kw_max_iter = None,
     kw_targeted = None, kw_random_init = None, kw_y = None\<rparr>"

text \<open>
  Modelled from the spec: the base class \<^verbatim>\<open>FastGradientMethod\<close> (constructor and
  \<^verbatim>\<open>set_params\<close>) is not among the sources. Sections 3 and 4.1 say that it owns the
  validation of norm order, budget, targeted and random-init flags, that the norm order
  is one of three values (here by type) and that the budget must be positive. Its
  \<^verbatim>\<open>set_params\<close> stores every key of \<^verbatim>\<open>attack_params\<close>, to which line 31 adds
  \<^verbatim>\<open>eps_step\<close> and \<^verbatim>\<open>max_iter\<close>, and then validates.
\<close>

definition base_validate :: "attack \<Rightarrow> error + attack" where
  "base_validate self = (if eps self \<le> 0 then Inl EpsNotPositive else Inr self)"

definition override :: "'a \<Rightarrow> 'a option \<Rightarrow> 'a" where
  "override old new = (case new of None \<Rightarrow> old | Some v \<Rightarrow> v)"

definition base_set_params :: "attack \<Rightarrow> 's kwargs \<Rightarrow> error + attack" where
  "base_set_params self kw =
     base_validate
       \<lparr>p_norm = override (p_norm self) (kw_norm kw),
        eps = override (eps self) (kw_eps kw),
        eps_step = override (eps_step self) (kw_eps_step kw),
        max_iter = override (max_iter self) (kw_max_iter kw),
        targeted = override (targeted self) (kw_targeted kw),
        random_init = override (random_init self) (kw_random_init kw)\<rparr>"

subsection \<open>Construction and reconfiguration (lines 33-59 and 116-135)\<close>

text \<open>
  \<^verbatim>\<open>__init__\<close>: the base constructor first, then the two checks of lines 53 and 57 on
  the arguments, then the stores; \<^verbatim>\<open>max_iter\<close> is stored as \<^verbatim>\<open>int(max_iter)\<close>.
\<close>

definition init ::
  "norm_order \<Rightarrow> real \<Rightarrow> real \<Rightarrow> number \<Rightarrow> bool \<Rightarrow> bool \<Rightarrow> error + attack" where
  "init norm0 eps0 eps_step0 max_iter0 targeted0 random_init0 =
     (case base_validate \<lparr>p_norm = norm0, eps = eps0, eps_step = eps_step0,
              max_iter = max_iter0, targeted = targeted0, random_init = random_init0\<rparr> of
        Inl e \<Rightarrow> Inl e
      | Inr self \<Rightarrow>
          if eps_step0 > eps0 then Inl EpsStepTooLarge
          else if num_val max_iter0 \<le> 0 then Inl MaxIterNotPositive
          else Inr (self\<lparr>eps_step := eps_step0, max_iter := IntV (py_int max_iter0)\<rparr>))"

text \<open>
  \<^verbatim>\<open>set_params\<close>: the inherited setter, then the same two comparisons on the stored
  attributes. Nothing is truncated here. The result is the reconfigured object.
\<close>

definition set_params :: "attack \<Rightarrow> 's kwargs \<Rightarrow> error + attack" where
  "set_params self kw =
     (case base_set_params self kw of
        Inl e \<Rightarrow> Inl e
      | Inr self' \<Rightarrow>
          if eps_step self' > eps self' then Inl EpsStepTooLarge
          else if num_val (max_iter self') \<le> 0 then Inl MaxIterNotPositive
          else Inr self')"

subsection \<open>numpy on batches\<close>

text \<open>
  A batch is the list of its rows. \<^verbatim>\<open>a[idx]\<close> with a list of indices copies the rows
  named, and raises \<^verbatim>\<open>IndexError\<close> when one is out of range.
\<close>

definition take_rows :: "'a list \<Rightarrow> nat list \<Rightarrow> error + 'a list" where
  "take_rows a idx =
     (if list_all (\<lambda>i. i < length a) idx then Inr (map (nth a) idx) else Inl IndexError)"

text \<open>
  Assigning \<^verbatim>\<open>v\<close> to \<open>m\<close> rows: \<^verbatim>\<open>v\<close> has \<open>m\<close> rows, or one row that is repeated;
  anything else is numpy's shape \<^verbatim>\<open>ValueError\<close>.
\<close>

definition conform :: "nat \<Rightarrow> 'a list \<Rightarrow> error + 'a list" where
  "conform m v =
     (if length v = m then Inr v
      else if length v = 1 then Inr (replicate m (hd v))
      else Inl ShapeError)"

text \<open>\<^verbatim>\<open>a[idx] = v\<close>: the rows are written in order, a later write to the same row wins.\<close>

definition put_rows :: "'a list \<Rightarrow> nat list \<Rightarrow> 'a list \<Rightarrow> error + 'a list" where
  "put_rows a idx v =
     (if \<not> list_all (\<lambda>i. i < length a) idx then Inl IndexError
      else case conform (length idx) v of
             Inl e \<Rightarrow> Inl e
           | Inr v' \<Rightarrow> Inr (fold (\<lambda>(i, r) b. b[i := r]) (zip idx v') a))"

text \<open>A binary operation on two batches, row by row, with a single row repeated.\<close>

definition broadcast2 :: "('a \<Rightarrow> 'b \<Rightarrow> 'c) \<Rightarrow> 'a list \<Rightarrow> 'b list \<Rightarrow> error + 'c list" where
  "broadcast2 f u v =
     (if length u = length v then Inr (map2 f u v)
      else if length v = 1 then Inr (map (\<lambda>a. f a (hd v)) u)
      else if length u = 1 then Inr (map (f (hd u)) v)
      else Inl ShapeError)"

text \<open>\<^verbatim>\<open>np.argmax\<close> of a row: the first position of its greatest entry.\<close>

fun argmax_from :: "'s::linorder \<Rightarrow> nat \<Rightarrow> nat \<Rightarrow> 's list \<Rightarrow> nat" where
  "argmax_from best bi i [] = bi"
| "argmax_from best bi i (v # vs) =
     (if best < v then argmax_from v i (Suc i) vs else argmax_from best bi (Suc i) vs)"

definition argmax :: "'s::linorder list \<Rightarrow> error + nat" where
  "argmax r = (case r of [] \<Rightarrow> Inl EmptyArgmax | v # vs \<Rightarrow> Inr (argmax_from v 0 1 vs))"

text \<open>\<^verbatim>\<open>np.argmax(m, axis=1)\<close>.\<close>

fun argmax_rows :: "'s::linorder list list \<Rightarrow> error + nat list" where
  "argmax_rows [] = Inr []"
| "argmax_rows (r # rs) =
     (case argmax r of
        Inl e \<Rightarrow> Inl e
      | Inr i \<Rightarrow> (case argmax_rows rs of Inl e \<Rightarrow> Inl e | Inr js \<Rightarrow> Inr (i # js)))"

text \<open>\<^verbatim>\<open>np.where(mask)[0]\<close>: the positions that hold \<^verbatim>\<open>True\<close>, ascending.\<close>

definition where_true :: "bool list \<Rightarrow> nat list" where
  "where_true flags = filter (\<lambda>i. flags ! i) [0..<length flags]"

subsection \<open>Collaborators, the store and the state of a call\<close>

text \<open>
  The classifier, the single step of the base class, the projection and the label
  utility are not in this file; they are parameters. Each takes a batch and returns a
  batch. The single step also gets the attack object (it is a method) and the number
  of the iteration, so that a step drawing random numbers may differ from call to call.
\<close>

record ('x, 's) collaborators =
  predict :: "'x list \<Rightarrow> 's list list"
  compute :: "attack \<Rightarrow> nat \<Rightarrow> 'x list \<Rightarrow> 's list list \<Rightarrow> real \<Rightarrow> bool \<Rightarrow> 'x list"
  projection :: "'x list \<Rightarrow> real \<Rightarrow> norm_order \<Rightarrow> 'x list"
  get_labels_np_array :: "'s list list \<Rightarrow> 's list list"

datatype 'x call = Predict "'x list" | Compute "'x list" | Projection "'x list"

text \<open>
  The store holds the arrays; an array is named by its position in the store, and
  a new array is put at the end.
\<close>

type_synonym 'x store = "'x list list"

definition copy :: "'x store \<Rightarrow> nat \<Rightarrow> 'x store \<times> nat" where
  "copy h p = (h @ [h ! p], length h)"

record 'x state =
  heap :: "'x store"
  adv_x :: nat
  active_indices :: "nat list"
  calls :: "'x call list"

type_synonym 'x failure = "error \<times> 'x call list"

text \<open>An operation that may raise, at a point where the calls \<open>c\<close> have been made.\<close>

definition attempt :: "error + 'a \<Rightarrow> 'c \<Rightarrow> ('a \<Rightarrow> (error \<times> 'c) + 'b) \<Rightarrow> (error \<times> 'c) + 'b" where
  "attempt r c f = (case r of Inl e \<Rightarrow> Inl (e, c) | Inr v \<Rightarrow> f v)"

subsection \<open>One iteration (lines 99-108)\<close>

text \<open>
  In the order of the source. Line 100: the active rows of \<^verbatim>\<open>adv_x\<close> and of the
  targets are read, the single step is called on them and its result is written to the
  active rows (\<open>a1\<close>). Line 102: the active rows of \<^verbatim>\<open>adv_x\<close> minus those of
  \<^verbatim>\<open>x\<close> are projected. Line 103: the active rows of \<^verbatim>\<open>x\<close> plus the noise are
  written to the active rows (\<open>a2\<close>). Line 104: the classifier is called on the active
  rows. Line 107: the positions where the target label differs from the arg-max of the
  prediction. Line 108: the indices at these positions form the new active list.
\<close>

definition iteration ::
  "('x::{plus,minus}, 's::linorder) collaborators \<Rightarrow> attack \<Rightarrow> nat \<Rightarrow> 's list list \<Rightarrow> nat list
     \<Rightarrow> nat \<Rightarrow> 'x state \<Rightarrow> 'x failure + 'x state" where
  "iteration cl self x targets target_labels k st =
     (let adv = adv_x st; act = active_indices st; h = heap st; c = calls st in
      attempt (take_rows (h ! adv) act) c (\<lambda>cur.
      attempt (take_rows targets act) c (\<lambda>ys.
      let c1 = c @ [Compute cur];
          stepped = compute cl self k cur ys (eps_step self) (random_init self) in
      attempt (put_rows (h ! adv) act stepped) c1 (\<lambda>a1.
      let h1 = h[adv := a1] in
      attempt (take_rows (h1 ! adv) act) c1 (\<lambda>cur1.
      attempt (take_rows (h1 ! x) act) c1 (\<lambda>xs.
      attempt (broadcast2 (-) cur1 xs) c1 (\<lambda>d.
      let c2 = c1 @ [Projection d];
          noise = projection cl d (eps self) (p_norm self) in
      attempt (take_rows (h1 ! x) act) c2 (\<lambda>xs'.
      attempt (broadcast2 (+) xs' noise) c2 (\<lambda>s.
      attempt (put_rows (h1 ! adv) act s) c2 (\<lambda>a2.
      let h2 = h1[adv := a2] in
      attempt (take_rows (h2 ! adv) act) c2 (\<lambda>cur2.
      let c3 = c2 @ [Predict cur2];
          adv_preds = predict cl cur2 in
      attempt (take_rows target_labels act) c3 (\<lambda>tl.
      attempt (argmax_rows adv_preds) c3 (\<lambda>am.
      attempt (broadcast2 (\<noteq>) tl am) c3 (\<lambda>flags.
      attempt (take_rows act (where_true flags)) c3 (\<lambda>act'.
      Inr \<lparr>heap = h2, adv_x = adv, active_indices = act', calls = c3\<rparr>)))))))))))))))"

subsection \<open>The loop (lines 98-112)\<close>

text \<open>
  \<^verbatim>\<open>for _ in range(self.max_iter)\<close> with \<open>n\<close> iterations left, the next one being
  number \<open>k\<close>; the \<^verbatim>\<open>break\<close> of line 112 ends it when no index is left.
\<close>

fun for_loop ::
  "('x::{plus,minus}, 's::linorder) collaborators \<Rightarrow> attack \<Rightarrow> nat \<Rightarrow> 's list list \<Rightarrow> nat list
     \<Rightarrow> nat \<Rightarrow> nat \<Rightarrow> 'x state \<Rightarrow> 'x failure + 'x state" where
  "for_loop cl self x targets target_labels 0 k st = Inr st"
| "for_loop cl self x targets target_labels (Suc n) k st =
     (case iteration cl self x targets target_labels k st of
        Inl f \<Rightarrow> Inl f
      | Inr st' \<Rightarrow>
          if length (active_indices st') = 0 then Inr st'
          else for_loop cl self x targets target_labels n (Suc k) st')"

subsection \<open>\<^verbatim>\<open>generate\<close> (lines 61-114)\<close>

text \<open>Lines 86-94: the targets, with the calls made to obtain them.\<close>

definition resolve_targets ::
  "('x, 's) collaborators \<Rightarrow> attack \<Rightarrow> 'x list \<Rightarrow> 's kwargs \<Rightarrow> 'x failure + ('s list list \<times> 'x call list)" where
  "resolve_targets cl self xv kw =
     (case kw_y kw of
        None \<Rightarrow>
          if targeted self then Inl (TargetLabelsRequired, [])
          else Inr (get_labels_np_array cl (predict cl xv), [Predict xv])
      | Some y \<Rightarrow> Inr (y, []))"

text \<open>
  The whole call, on the store \<open>h\<close> in which the caller's array is number \<open>x\<close>
  (so \<open>x < length h\<close>). The result is the final state: the returned array is number
  \<open>adv_x\<close> of its store. The attributes stored by \<^verbatim>\<open>set_params\<close> are used by the
  rest of the call; the object itself is not part of the result.
\<close>

definition generate_run ::
  "('x::{plus,minus}, 's::linorder) collaborators \<Rightarrow> attack \<Rightarrow> 'x store \<Rightarrow> nat \<Rightarrow> 's kwargs
     \<Rightarrow> 'x failure + 'x state" where
  "generate_run cl self h x kw =
     (case set_params self kw of
        Inl e \<Rightarrow> Inl (e, [])
      | Inr self' \<Rightarrow>
          (case copy h x of (h', adv) \<Rightarrow>
           (case resolve_targets cl self' (h' ! x) kw of
              Inl f \<Rightarrow> Inl f
            | Inr (targets, c) \<Rightarrow>
                attempt (argmax_rows targets) c (\<lambda>target_labels.
                let active = [0..<length (h' ! adv)] in
                (case max_iter self' of
                   FloatV r \<Rightarrow> Inl (TypeError, c)
                 | IntV n \<Rightarrow>
                     for_loop cl self' x targets target_labels (nat n) 0
                       \<lparr>heap = h', adv_x = adv, active_indices = active, calls = c\<rparr>)))))"

text \<open>What the caller gets: the store after the call and the array returned.\<close>

definition generate ::
  "('x::{plus,minus}, 's::linorder) collaborators \<Rightarrow> attack \<Rightarrow> 'x store \<Rightarrow> nat \<Rightarrow> 's kwargs
     \<Rightarrow> 'x failure + ('x store \<times> nat)" where
  "generate cl self h x kw =
     (case generate_run cl self h x kw of
        Inl f \<Rightarrow> Inl f
      | Inr st \<Rightarrow> Inr (heap st, adv_x st))"

subsection \<open>Reading the log of calls\<close>

text \<open>
  \<open>loop_calls cs m\<close>: the calls \<open>cs\<close> are those of exactly \<open>m\<close> iterations, each one
  a single step, a projection and a prediction, in this order.
\<close>

fun loop_calls :: "'x call list \<Rightarrow> nat \<Rightarrow> bool" where
  "loop_calls [] m = (m = 0)"
| "loop_calls (Compute a # Projection d # Predict b # cs) m =
     (case m of 0 \<Rightarrow> False | Suc m' \<Rightarrow> loop_calls cs m')"
| "loop_calls _ m = False"

subsection \<open>A small instance\<close>

text \<open>
  Samples with one feature. The classifier answers class 0 below the threshold 1/5 and
  class 1 from there on; the single step adds the step size; the projection clamps to
  the interval of the radius, which is the ball of every norm in one dimension; the
  label utility marks the greatest score of a row.
\<close>

definition example_collaborators :: "(real, nat) collaborators" where
  "example_collaborators =
     \<lparr>predict = map (\<lambda>v. if v < 1 / 5 then [1, 0] else [0, 1]),
      compute = (\<lambda>self k xs ys step rnd. map (\<lambda>v. v + step) xs),
      projection = (\<lambda>d e p. map (\<lambda>v. max (- e) (min e v)) d),
      get_labels_np_array = map (\<lambda>r. map (\<lambda>v. if v = fold max r 0 then 1 else 0) r)\<rparr>"

definition example_norm :: "norm_order \<Rightarrow> real \<Rightarrow> real" where
  "example_norm p v = \<bar>v\<bar>"

definition example_attack :: "int \<Rightarrow> attack" where
  "example_attack n =
     \<lparr>p_norm = LInf, eps = 3 / 10, eps_step = 1 / 10, max_iter = IntV n,
      targeted = False, random_init = False\<rparr>"

definition with_y :: "'s list list \<Rightarrow> 's kwargs" where
  "with_y y = \<lparr>kw_norm = None, kw_eps = None, kw_eps_step = None, kw_max_iter = None,
     kw_targeted = None, kw_random_init = None, kw_y = Some y\<rparr>"

definition with_eps_step :: "real \<Rightarrow> 's kwargs" where
  "with_eps_step v = \<lparr>kw_norm = None, kw_eps = None, kw_eps_step = Some v, kw_max_iter = None,
     kw_targeted = None, kw_random_init = None, kw_y = None\<rparr>"

text \<open>States of the loop on the small instance.\<close>

definition example_start :: "real state" where
  "example_start = \<lparr>heap = [[0, 0], [0, 0]], adv_x = 1, active_indices = [0, 1], calls = []\<rparr>"

definition example_done :: "real state" where
  "example_done =
     \<lparr>heap = [[0, 0], [1 / 5, 1 / 5]], adv_x = 1, active_indices = [],
      calls = [Compute [0, 0], Projection [1 / 10, 1 / 10], Predict [1 / 10, 1 / 10],
               Compute [1 / 10, 1 / 10], Projection [1 / 5, 1 / 5], Predict [1 / 5, 1 / 5]]\<rparr>"

definition example_labelled :: "real state" where
  "example_labelled =
     \<lparr>heap = [[1 / 2, 0], [1 / 2, 0]], adv_x = 1, active_indices = [0, 1], calls = []\<rparr>"

definition example_first :: "real state" where
  "example_first =
     \<lparr>heap = [[1 / 2, 0], [3 / 5, 1 / 10]], adv_x = 1, active_indices = [0],
      calls = [Compute [1 / 2, 0], Projection [1 / 10, 1 / 10], Predict [3 / 5, 1 / 10]]\<rparr>"

definition example_second :: "real state" where
  "example_second =
     \<lparr>heap = [[1 / 2, 0], [7 / 10, 1 / 10]], adv_x = 1, active_indices = [0],
      calls = [Compute [1 / 2, 0], Projection [1 / 10, 1 / 10], Predict [3 / 5, 1 / 10],
               Compute [3 / 5], Projection [1 / 5], Predict [7 / 10]]\<rparr>"

definition example_targeted :: attack where
  "example_targeted =
     \<lparr>p_norm = LInf, eps = 3 / 10, eps_step = 1 / 10, max_iter = IntV 2,
      targeted = True, random_init = False\<rparr>"

definition example_unlabelled :: "real state" where
  "example_unlabelled =
     \<lparr>heap = [[1 / 2, 0], [3 / 5, 1 / 10]], adv_x = 1, active_indices = [],
      calls = [Predict [1 / 2, 0], Compute [1 / 2, 0], Projection [1 / 10, 1 / 10],
               Predict [3 / 5, 1 / 10]]\<rparr>"

text \<open>
  Targeted runs on the small instance: the target class is 1 and the single step moves
  a sample towards it.
\<close>

definition example_targeted_once :: attack where
  "example_targeted_once =
     \<lparr>p_norm = LInf, eps = 3 / 10, eps_step = 1 / 10, max_iter = IntV 1,
      targeted = True, random_init = False\<rparr>"

definition example_towards :: "real state" where
  "example_towards =
     \<lparr>heap = [[0, 1 / 5], [0, 1 / 5]], adv_x = 1, active_indices = [0, 1], calls = []\<rparr>"

definition example_towards_first :: "real state" where
  "example_towards_first =
     \<lparr>heap = [[0, 1 / 5], [1 / 10, 3 / 10]], adv_x = 1, active_indices = [0],
      calls = [Compute [0, 1 / 5], Projection [1 / 10, 1 / 10], Predict [1 / 10, 3 / 10]]\<rparr>"

definition example_reached :: "real state" where
  "example_reached =
     \<lparr>heap = [[1 / 5, 1 / 4], [3 / 10, 7 / 20]], adv_x = 1, active_indices = [],
      calls = [Compute [1 / 5, 1 / 4], Projection [1 / 10, 1 / 10],
               Predict [3 / 10, 7 / 20]]\<rparr>"

section \<open>Lemmas\<close>

subsection \<open>Reading and writing rows\<close>

lemma take_rows_Inr:
  "take_rows a idx = Inr r \<longleftrightarrow> (\<forall>i\<in>set idx. i < length a) \<and> r = map (nth a) idx"
  by (auto simp: take_rows_def list_all_iff)

lemma conform_Inr:
  "conform m v = Inr w \<Longrightarrow> length w = m \<and> set w \<subseteq> set v"
  by (cases v) (auto simp: conform_def split: if_splits)

lemma scatter_length:
  "length (fold (\<lambda>(i, r) b. b[i := r]) ps a) = length a"
  by (induction ps arbitrary: a) (auto split: prod.splits)

lemma scatter_other:
  "i \<notin> fst ` set ps \<Longrightarrow> fold (\<lambda>(i, r) b. b[i := r]) ps a ! i = a ! i"
  by (induction ps arbitrary: a) (auto split: prod.splits)

lemma scatter_written:
  "distinct (map fst ps) \<Longrightarrow> (i, r) \<in> set ps \<Longrightarrow> i < length a
     \<Longrightarrow> fold (\<lambda>(i, r) b. b[i := r]) ps a ! i = r"
proof (induction ps arbitrary: a)
  case Nil
  then show ?case by simp
next
  case (Cons p ps)
  obtain j q where p: "p = (j, q)" by (cases p)
  show ?case
  proof (cases "(i, r) \<in> set ps")
    case True
    with Cons p show ?thesis by simp
  next
    case False
    with Cons.prems p have eq: "j = i" "q = r" by auto
    with Cons.prems p have "i \<notin> fst ` set ps" by auto
    then show ?thesis using Cons.prems(3) p eq by (simp add: scatter_other)
  qed
qed

lemma put_rows_length: "put_rows a idx v = Inr b \<Longrightarrow> length b = length a"
  by (auto simp: put_rows_def scatter_length split: if_splits sum.splits)

lemma put_rows_other:
  assumes "put_rows a idx v = Inr b" "i \<notin> set idx"
  shows "b ! i = a ! i"
proof -
  from assms(1) obtain w where w: "conform (length idx) v = Inr w"
    and b: "b = fold (\<lambda>(i, r) b. b[i := r]) (zip idx w) a"
    by (auto simp: put_rows_def split: if_splits sum.splits)
  have "i \<notin> fst ` set (zip idx w)" using assms(2) by (auto dest: set_zip_leftD)
  then show ?thesis unfolding b by (rule scatter_other)
qed

lemma put_rows_written:
  assumes "put_rows a idx v = Inr b" "distinct idx" "j < length idx"
  shows "\<exists>w. conform (length idx) v = Inr w \<and> b ! (idx ! j) = w ! j"
proof -
  from assms(1) obtain w where w: "conform (length idx) v = Inr w"
    and b: "b = fold (\<lambda>(i, r) b. b[i := r]) (zip idx w) a"
    and rng: "list_all (\<lambda>i. i < length a) idx"
    by (auto simp: put_rows_def split: if_splits sum.splits)
  have len: "length w = length idx" using conform_Inr [OF w] by simp
  have d: "distinct (map fst (zip idx w))" using assms(2) len by simp
  have m: "(idx ! j, w ! j) \<in> set (zip idx w)"
    using assms(3) len by (auto simp: set_zip)
  have "idx ! j < length a" using rng assms(3) by (simp add: list_all_length)
  from scatter_written [OF d m this] w show ?thesis unfolding b by blast
qed

lemma broadcast2_Inr:
  assumes "broadcast2 f u v = Inr w"
  shows "(length w = length u \<and> (\<forall>j<length u. \<exists>n\<in>set v. w ! j = f (u ! j) n))
         \<or> (length u = 1 \<and> length v \<noteq> 1)"
proof (cases "length u = length v")
  case True
  with assms have w: "w = map2 f u v" by (simp add: broadcast2_def)
  have "\<exists>n\<in>set v. w ! j = f (u ! j) n" if "j < length u" for j
    using that True unfolding w by (intro bexI [of _ "v ! j"]) auto
  then show ?thesis using True w by simp
next
  case False
  show ?thesis
  proof (cases "length v = 1")
    case True
    with False assms have w: "w = map (\<lambda>a. f a (hd v)) u" by (simp add: broadcast2_def)
    from True have "hd v \<in> set v" by (cases v) auto
    then show ?thesis unfolding w by auto
  next
    case v1: False
    with False assms have "length u = 1" by (auto simp: broadcast2_def split: if_splits)
    with v1 show ?thesis by simp
  qed
qed

lemma broadcast2_same:
  "length u = length v \<Longrightarrow> broadcast2 f u v = Inr (map2 f u v)"
  by (simp add: broadcast2_def)

lemma where_true_set: "set (where_true flags) = {i. i < length flags \<and> flags ! i}"
  by (auto simp: where_true_def)

lemma where_true_distinct: "distinct (where_true flags)"
  by (simp add: where_true_def)

lemma where_true_sorted: "sorted (where_true flags)"
  by (simp add: where_true_def sorted_wrt_filter)

subsection \<open>One iteration\<close>

lemma iteration_InrE:
  assumes "iteration cl self x targets target_labels k st = Inr st'"
  obtains cur ys a1 cur1 xs d s a2 cur2 tl am flags act' where
    "take_rows (heap st ! adv_x st) (active_indices st) = Inr cur"
    "take_rows targets (active_indices st) = Inr ys"
    "put_rows (heap st ! adv_x st) (active_indices st)
       (compute cl self k cur ys (eps_step self) (random_init self)) = Inr a1"
    "take_rows ((heap st)[adv_x st := a1] ! adv_x st) (active_indices st) = Inr cur1"
    "take_rows ((heap st)[adv_x st := a1] ! x) (active_indices st) = Inr xs"
    "broadcast2 (-) cur1 xs = Inr d"
    "broadcast2 (+) xs (projection cl d (eps self) (p_norm self)) = Inr s"
    "put_rows ((heap st)[adv_x st := a1] ! adv_x st) (active_indices st) s = Inr a2"
    "take_rows ((heap st)[adv_x st := a1, adv_x st := a2] ! adv_x st) (active_indices st) = Inr cur2"
    "take_rows target_labels (active_indices st) = Inr tl"
    "argmax_rows (predict cl cur2) = Inr am"
    "broadcast2 (\<noteq>) tl am = Inr flags"
    "take_rows (active_indices st) (where_true flags) = Inr act'"
    "st' = \<lparr>heap = (heap st)[adv_x st := a1, adv_x st := a2], adv_x = adv_x st,
            active_indices = act',
            calls = calls st @ [Compute cur, Projection d, Predict cur2]\<rparr>"
  using assms
  unfolding iteration_def Let_def attempt_def
  by (auto split: sum.splits)

lemma where_true_as_filter:
  assumes "\<forall>i\<in>set (where_true flags). i < n"
  shows "where_true flags = filter (\<lambda>i. i < length flags \<and> flags ! i) [0..<n]"
proof (rule sorted_distinct_set_unique)
  show "set (where_true flags) = set (filter (\<lambda>i. i < length flags \<and> flags ! i) [0..<n])"
    using assms by (auto simp: where_true_set)
qed (simp_all add: where_true_sorted where_true_distinct sorted_wrt_filter)

lemma take_where_subseq:
  assumes "take_rows act (where_true flags) = Inr act'"
  shows "subseq act' act"
proof -
  from assms have rng: "\<forall>i\<in>set (where_true flags). i < length act"
    and act': "act' = map (nth act) (where_true flags)"
    by (simp_all add: take_rows_Inr)
  have "subseq (map (nth act) (filter (\<lambda>i. i < length flags \<and> flags ! i) [0..<length act]))
          (map (nth act) [0..<length act])"
    by (intro subseq_map subseq_filter_left)
  then show ?thesis
    unfolding act' where_true_as_filter [OF rng] by (simp add: map_nth)
qed

lemma take_where_member:
  assumes "take_rows act (where_true flags) = Inr act'" "distinct act" "j < length act"
  shows "act ! j \<in> set act' \<longleftrightarrow> j < length flags \<and> flags ! j"
proof -
  from assms(1) have rng: "\<forall>i\<in>set (where_true flags). i < length act"
    and act': "act' = map (nth act) (where_true flags)"
    by (simp_all add: take_rows_Inr)
  show ?thesis
  proof
    assume "act ! j \<in> set act'"
    then obtain i where i: "i \<in> set (where_true flags)" "act ! i = act ! j"
      unfolding act' by auto
    with rng have "i < length act" by simp
    with i(2) assms(2,3) have "i = j" by (simp add: nth_eq_iff_index_eq)
    with i(1) show "j < length flags \<and> flags ! j" by (simp add: where_true_set)
  next
    assume "j < length flags \<and> flags ! j"
    then have "j \<in> set (where_true flags)" by (simp add: where_true_set)
    then show "act ! j \<in> set act'" unfolding act' by simp
  qed
qed

lemma iteration_active_subseq:
  assumes "iteration cl self x targets target_labels k st = Inr st'"
  shows "subseq (active_indices st') (active_indices st)"
  using assms by (elim iteration_InrE) (simp add: take_where_subseq)

lemma iteration_adv_x:
  assumes "iteration cl self x targets target_labels k st = Inr st'"
  shows "adv_x st' = adv_x st"
  using assms by (elim iteration_InrE) simp

lemma iteration_heap_length:
  assumes "iteration cl self x targets target_labels k st = Inr st'"
  shows "length (heap st') = length (heap st)"
  using assms by (elim iteration_InrE) simp

lemma iteration_heap_other:
  assumes "iteration cl self x targets target_labels k st = Inr st'" "p \<noteq> adv_x st"
  shows "heap st' ! p = heap st ! p"
  using assms by (elim iteration_InrE) simp

lemma iteration_calls:
  assumes "iteration cl self x targets target_labels k st = Inr st'"
  shows "\<exists>cur d cur2. calls st' = calls st @ [Compute cur, Projection d, Predict cur2]"
  using assms by (elim iteration_InrE) simp

lemma iteration_frame:
  assumes "iteration cl self x targets target_labels k st = Inr st'"
    and "adv_x st < length (heap st)"
  shows "length (heap st' ! adv_x st) = length (heap st ! adv_x st)"
    and "i \<notin> set (active_indices st) \<Longrightarrow> heap st' ! adv_x st ! i = heap st ! adv_x st ! i"
  using assms
  by (elim iteration_InrE; simp add: put_rows_length put_rows_other)+

lemma iteration_written:
  fixes cl :: "('x::{plus,minus}, 's::linorder) collaborators"
  assumes it: "iteration cl self x targets target_labels k st = Inr st'"
    and adv: "adv_x st < length (heap st)" and ne: "x \<noteq> adv_x st"
    and dist: "distinct (active_indices st)" and i: "i \<in> set (active_indices st)"
  shows "\<exists>d. \<exists>n\<in>set (projection cl d (eps self) (p_norm self)).
           heap st' ! adv_x st ! i = heap st ! x ! i + n"
proof -
  from i obtain j where j: "j < length (active_indices st)" "active_indices st ! j = i"
    by (auto simp: in_set_conv_nth)
  from it show ?thesis
  proof (rule iteration_InrE)
    fix cur ys a1 cur1 xs d s a2 cur2 tl am flags act'
    assume xs: "take_rows ((heap st)[adv_x st := a1] ! x) (active_indices st) = Inr xs"
      and s: "broadcast2 (+) xs (projection cl d (eps self) (p_norm self)) = Inr s"
      and a2: "put_rows ((heap st)[adv_x st := a1] ! adv_x st) (active_indices st) s = Inr a2"
      and st': "st' = \<lparr>heap = (heap st)[adv_x st := a1, adv_x st := a2], adv_x = adv_x st,
            active_indices = act',
            calls = calls st @ [Compute cur, Projection d, Predict cur2]\<rparr>"
    from xs ne have xs_eq: "xs = map (nth (heap st ! x)) (active_indices st)"
      by (simp add: take_rows_Inr)
    from put_rows_written [OF a2 dist j(1)] obtain w
      where w: "conform (length (active_indices st)) s = Inr w" and aw: "a2 ! i = w ! j"
      using j(2) by auto
    have lw: "length w = length (active_indices st)" using conform_Inr [OF w] by simp
    have "w ! j \<in> set w" using j(1) lw by simp
    then have "w ! j \<in> set s" using conform_Inr [OF w] by auto
    then obtain m where m: "m < length s" "s ! m = w ! j" by (auto simp: in_set_conv_nth)
    let ?noise = "projection cl d (eps self) (p_norm self)"
    from broadcast2_Inr [OF s]
    have "\<exists>n\<in>set ?noise. w ! j = heap st ! x ! i + n"
    proof
      assume a: "length s = length xs \<and> (\<forall>j<length xs. \<exists>n\<in>set ?noise. s ! j = xs ! j + n)"
      then have ls: "length s = length (active_indices st)" by (simp add: xs_eq)
      with w have "w = s" by (simp add: conform_def)
      with a j(1) ls xs_eq obtain n where "n \<in> set ?noise" "w ! j = xs ! j + n" by auto
      then show ?thesis using j xs_eq by auto
    next
      assume b: "length xs = 1 \<and> length ?noise \<noteq> 1"
      then have l1: "length (active_indices st) = 1" by (simp add: xs_eq)
      with j(1) have j0: "j = 0" by simp
      from b s have "length s = length ?noise"
        by (auto simp: broadcast2_def split: if_splits)
      with w l1 b have False by (auto simp: conform_def split: if_splits)
      then show ?thesis ..
    qed
    then show ?thesis using aw adv unfolding st' by auto
  qed
qed

subsection \<open>The loop and the whole call\<close>

lemma loop_calls_append:
  "loop_calls cs m \<Longrightarrow> loop_calls ds m' \<Longrightarrow> loop_calls (cs @ ds) (m + m')"
  by (induction cs m rule: loop_calls.induct) (auto split: nat.splits)

lemma for_loop_invariant:
  assumes "for_loop cl self x targets target_labels n k st = Inr st'"
    and "P st"
    and "\<And>k s s'. P s \<Longrightarrow> iteration cl self x targets target_labels k s = Inr s' \<Longrightarrow> P s'"
  shows "P st'"
  using assms(1,2)
proof (induction n arbitrary: k st)
  case 0
  then show ?case by simp
next
  case (Suc n)
  from Suc.prems(1) obtain s1 where s1: "iteration cl self x targets target_labels k st = Inr s1"
    by (auto split: sum.splits)
  have P1: "P s1" using assms(3) [OF Suc.prems(2) s1] .
  show ?case
  proof (cases "active_indices s1 = []")
    case True
    with Suc.prems(1) s1 P1 show ?thesis by simp
  next
    case False
    with Suc.prems(1) s1 have "for_loop cl self x targets target_labels n (Suc k) s1 = Inr st'"
      by simp
    from Suc.IH [OF this P1] show ?thesis .
  qed
qed

lemma for_loop_split:
  "for_loop cl self x targets target_labels (j + m) k st =
     (case for_loop cl self x targets target_labels j k st of
        Inl f \<Rightarrow> Inl f
      | Inr s \<Rightarrow> if 0 < j \<and> active_indices s = [] then Inr s
                 else for_loop cl self x targets target_labels m (k + j) s)"
proof (induction j arbitrary: k st)
  case 0
  then show ?case by simp
next
  case (Suc j)
  show ?case
  proof (cases "iteration cl self x targets target_labels k st")
    case (Inl f)
    then show ?thesis by simp
  next
    case (Inr s1)
    show ?thesis
    proof (cases "active_indices s1 = []")
      case True
      with Inr show ?thesis by simp
    next
      case False
      show ?thesis
      proof (cases j)
        case 0
        with Inr False show ?thesis by simp
      next
        case (Suc j')
        with Inr False Suc.IH [of "Suc k" s1] show ?thesis
          by (simp split: sum.splits)
      qed
    qed
  qed
qed

lemma for_loop_calls:
  assumes "for_loop cl self x targets target_labels n k st = Inr st'"
  shows "\<exists>cs m. calls st' = calls st @ cs \<and> loop_calls cs m \<and> m \<le> n"
  using assms
proof (induction n arbitrary: k st)
  case 0
  then show ?case by (auto intro: exI [of _ 0])
next
  case (Suc n)
  from Suc.prems obtain s1 where s1: "iteration cl self x targets target_labels k st = Inr s1"
    by (auto split: sum.splits)
  from iteration_calls [OF s1] obtain a d b
    where c1: "calls s1 = calls st @ [Compute a, Projection d, Predict b]" by blast
  have one: "loop_calls [Compute a, Projection d, Predict b] 1" by simp
  show ?case
  proof (cases "active_indices s1 = []")
    case True
    with Suc.prems s1 have "st' = s1" by simp
    with c1 one show ?thesis by (intro exI [of _ "[Compute a, Projection d, Predict b]"] exI [of _ 1]) simp
  next
    case False
    with Suc.prems s1 have "for_loop cl self x targets target_labels n (Suc k) s1 = Inr st'"
      by simp
    from Suc.IH [OF this] obtain cs m
      where cs: "calls st' = calls s1 @ cs" "loop_calls cs m" "m \<le> n" by blast
    from loop_calls_append [OF one cs(2)] cs c1 show ?thesis
      by (intro exI [of _ "[Compute a, Projection d, Predict b] @ cs"] exI [of _ "1 + m"]) simp
  qed
qed

lemma generate_run_InrE:
  assumes "generate_run cl self h x kw = Inr st"
  obtains self' targets c tl n where
    "set_params self kw = Inr self'"
    "resolve_targets cl self' ((h @ [h ! x]) ! x) kw = Inr (targets, c)"
    "argmax_rows targets = Inr tl"
    "max_iter self' = IntV n"
    "for_loop cl self' x targets tl (nat n) 0
       \<lparr>heap = h @ [h ! x], adv_x = length h, active_indices = [0..<length (h ! x)],
        calls = c\<rparr> = Inr st"
  using assms
  unfolding generate_run_def copy_def attempt_def Let_def
  by (auto split: sum.splits number.splits prod.splits)

section \<open>Construction and reconfiguration\<close>

text \<open>
  C5. The step size is rejected exactly when it is strictly greater than the budget:
  whenever \<open>eps_step > eps\<close>, constructing or reconfiguring raises an
  invalid-configuration error; where the base class accepts the budget, the error of
  lines 54 and 131 is raised if and only if \<open>eps_step > eps\<close>; where the iteration
  count is valid as well, an error is raised at all if and only if \<open>eps_step > eps\<close>,
  so that \<open>eps_step = eps\<close> is accepted. An error of the reconfiguration is the result
  of \<open>generate\<close>, with no call made to the classifier, the single step or the
  projection.
\<close>

theorem step_size_validation:
  fixes kw :: "('s::linorder) kwargs" and cl :: "('x::{plus,minus}, 's) collaborators"
  shows
  "(s > e \<longrightarrow> (\<exists>err. init p e s m t r = Inl err \<and> invalid_configuration err))
   \<and> (0 < e \<longrightarrow> (init p e s m t r = Inl EpsStepTooLarge \<longleftrightarrow> s > e))
   \<and> (0 < e \<and> 0 < num_val m \<longrightarrow> ((\<exists>err. init p e s m t r = Inl err) \<longleftrightarrow> s > e))
   \<and> (override (eps_step self) (kw_eps_step kw) > override (eps self) (kw_eps kw) \<longrightarrow>
        (\<exists>err. set_params self kw = Inl err \<and> invalid_configuration err))
   \<and> (0 < override (eps self) (kw_eps kw) \<longrightarrow>
        (set_params self kw = Inl EpsStepTooLarge \<longleftrightarrow>
           override (eps_step self) (kw_eps_step kw) > override (eps self) (kw_eps kw)))
   \<and> (0 < override (eps self) (kw_eps kw)
        \<and> 0 < num_val (override (max_iter self) (kw_max_iter kw)) \<longrightarrow>
        ((\<exists>err. set_params self kw = Inl err) \<longleftrightarrow>
           override (eps_step self) (kw_eps_step kw) > override (eps self) (kw_eps kw)))
   \<and> (\<forall>err. set_params self kw = Inl err \<longrightarrow> generate_run cl self h x kw = Inl (err, [])
          \<and> generate cl self h x kw = Inl (err, []))"
  by (auto simp: init_def set_params_def base_set_params_def base_validate_def
        generate_run_def generate_def)

theorem step_size_validation_witness:
  "init LInf (3 / 10) (1 / 2) (IntV 20) False False = Inl EpsStepTooLarge
   \<and> invalid_configuration EpsStepTooLarge
   \<and> \<not> (\<exists>err. init LInf (3 / 10) (3 / 10) (IntV 20) False False = Inl err)
   \<and> set_params (example_attack 20) (with_eps_step (1 / 2) :: nat kwargs) = Inl EpsStepTooLarge
   \<and> \<not> (\<exists>err. set_params (example_attack 20) (with_eps_step (3 / 10) :: nat kwargs) = Inl err)
   \<and> generate example_collaborators (example_attack 20) [[0, 1 / 2]] 0 (with_eps_step (1 / 2))
       = Inl (EpsStepTooLarge, [])"
  using step_size_validation [where e = "3 / 10" and s = "1 / 2" and p = LInf and m = "IntV 20"
      and t = False and r = False and self = "example_attack 20"
      and kw = "with_eps_step (1 / 2)" and cl = example_collaborators and h = "[[0, 1 / 2]]"
      and x = 0]
    step_size_validation [where e = "3 / 10" and s = "3 / 10" and p = LInf and m = "IntV 20"
      and t = False and r = False and self = "example_attack 20"
      and kw = "with_eps_step (3 / 10)" and cl = example_collaborators and h = "[[0, 1 / 2]]"
      and x = 0]
  by (simp add: example_attack_def with_eps_step_def override_def)

text \<open>
  C6. Constructing with an iteration count that is zero or negative raises an
  invalid-configuration error. With a valid budget and step size, the constructor
  rejects exactly the counts \<open>max_iter \<le> 0\<close>, and a positive count, fractional or not,
  is accepted and stored as its integer part: 3.9 is stored as 3.
\<close>

theorem max_iter_validation:
  "(num_val m \<le> 0 \<longrightarrow> (\<exists>err. init p e s m t r = Inl err \<and> invalid_configuration err))
   \<and> (0 < e \<and> s \<le> e \<longrightarrow>
        (init p e s m t r = Inl MaxIterNotPositive \<longleftrightarrow> num_val m \<le> 0)
        \<and> ((\<exists>err. init p e s m t r = Inl err) \<longleftrightarrow> num_val m \<le> 0)
        \<and> (0 < num_val m \<longrightarrow>
             init p e s m t r =
               Inr \<lparr>p_norm = p, eps = e, eps_step = s, max_iter = IntV (py_int m),
                    targeted = t, random_init = r\<rparr>))
   \<and> (0 < q \<longrightarrow> py_int (FloatV q) = \<lfloor>q\<rfloor>)"
  by (auto simp: init_def base_validate_def)

theorem max_iter_validation_witness:
  "(\<exists>err. init LInf (3 / 10) (1 / 10) (IntV 0) False False = Inl err \<and> invalid_configuration err)
   \<and> (\<exists>err. init LInf (3 / 10) (1 / 10) (IntV (- 5)) False False = Inl err
          \<and> invalid_configuration err)
   \<and> init LInf (3 / 10) (1 / 10) (IntV 0) False False = Inl MaxIterNotPositive
   \<and> init LInf (3 / 10) (1 / 10) (FloatV (39 / 10)) False False =
       Inr \<lparr>p_norm = LInf, eps = 3 / 10, eps_step = 1 / 10, max_iter = IntV 3,
            targeted = False, random_init = False\<rparr>
   \<and> py_int (FloatV (39 / 10)) = 3"
  using max_iter_validation [where m = "IntV 0" and p = LInf and e = "3 / 10" and s = "1 / 10"
      and t = False and r = False and q = "39 / 10"]
    max_iter_validation [where m = "IntV (- 5)" and p = LInf and e = "3 / 10" and s = "1 / 10"
      and t = False and r = False and q = "39 / 10"]
    max_iter_validation [where m = "FloatV (39 / 10)" and p = LInf and e = "3 / 10"
      and s = "1 / 10" and t = False and r = False and q = "39 / 10"]
  by simp

section \<open>The caller's array\<close>

text \<open>
  C8. A call that returns leaves every array the caller had in the store as it was, the
  input \<open>x\<close> among them: \<open>generate\<close> works on a copy put in a new place of the store,
  every write goes to that copy, and the array returned is that copy, not \<open>x\<close>.
\<close>

theorem input_not_aliased:
  fixes cl :: "('x::{plus,minus}, 's::linorder) collaborators"
  assumes "generate cl self h x kw = Inr (h', r)" and "x < length h"
  shows "r \<noteq> x \<and> r = length h \<and> length h' = Suc (length h) \<and> take (length h) h' = h
         \<and> h' ! x = h ! x"
proof -
  from assms(1) obtain st where st: "generate_run cl self h x kw = Inr st"
    and h': "h' = heap st" and r: "r = adv_x st"
    by (auto simp: generate_def split: sum.splits)
  let ?P = "\<lambda>s. adv_x s = length h \<and> length (heap s) = Suc (length h)
                \<and> take (length h) (heap s) = h"
  from st have "?P st"
  proof (rule generate_run_InrE)
    fix self' targets c tl n
    assume "for_loop cl self' x targets tl (nat n) 0
       \<lparr>heap = h @ [h ! x], adv_x = length h, active_indices = [0..<length (h ! x)],
        calls = c\<rparr> = Inr st"
    then show ?thesis
    proof (rule for_loop_invariant [where P = ?P])
      fix k s s'
      assume P: "?P s" and it: "iteration cl self' x targets tl k s = Inr s'"
      have "take (length h) (heap s') = take (length h) (heap s)"
        using iteration_heap_length [OF it] iteration_heap_other [OF it] P
        by (intro nth_take_lemma) auto
      with P iteration_adv_x [OF it] iteration_heap_length [OF it] show "?P s'" by simp
    qed simp
  qed
  moreover from this assms(2) have "heap st ! x = h ! x"
    by (metis nth_take)
  ultimately show ?thesis using assms(2) h' r by simp
qed

theorem input_not_aliased_witness:
  "generate example_collaborators (example_attack 2) [[1 / 2, 0]] 0 (with_y [[1, 0], [1, 0]])
     = Inr ([[1 / 2, 0], [7 / 10, 1 / 10]], 1)
   \<and> (0::nat) < length [[1 / 2, 0 :: real]]
   \<and> (1::nat) \<noteq> 0
   \<and> take (length [[1 / 2, 0 :: real]]) [[1 / 2, 0], [7 / 10, 1 / 10]] = [[1 / 2, 0 :: real]]
   \<and> [[1 / 2, 0], [7 / 10, 1 / 10]] ! 0 = [[1 / 2, 0 :: real]] ! 0"
proof -
  have g: "generate example_collaborators (example_attack 2) [[1 / 2, 0]] 0
             (with_y [[1, 0], [1, 0]]) = Inr ([[1 / 2, 0], [7 / 10, 1 / 10]], 1)"
    by code_simp
  have l: "(0::nat) < length [[1 / 2, 0 :: real]]" by simp
  from input_not_aliased [OF g l] g l show ?thesis by simp
qed

section \<open>A fractional iteration count below one\<close>

text \<open>
  C10 as stated fails: a count of 1/2 is accepted by the constructor and stored as 0,
  but the next \<open>generate\<close> does not return a copy of the input. Its first statement,
  line 83, re-runs the check of line 133 on the stored 0 and raises.
\<close>

theorem fractional_max_iter_counterexample:
  "init LInf (3 / 10) (1 / 10) (FloatV (1 / 2)) False False = Inr (example_attack 0)
   \<and> generate example_collaborators (example_attack 0) [[0, 1 / 2]] 0 no_kwargs
       = Inl (MaxIterNotPositive, [])"
  by code_simp

text \<open>
  C10, amended. For a fractional count strictly between 0 and 1, with a valid budget and
  step size, the constructor succeeds and stores the count 0; every later \<open>generate\<close>
  that does not override \<open>max_iter\<close> raises an invalid-configuration error before any
  call to the classifier, the single step or the projection, and with no override of
  budget and step size either it is the error of line 134.
\<close>

theorem fractional_max_iter_blocks_generate:
  fixes cl :: "('x::{plus,minus}, 's::linorder) collaborators"
  assumes "0 < q" and "q < 1" and "0 < e" and "s \<le> e"
  shows "init p e s (FloatV q) t r =
           Inr \<lparr>p_norm = p, eps = e, eps_step = s, max_iter = IntV 0, targeted = t,
                random_init = r\<rparr>
         \<and> (kw_max_iter kw = None \<longrightarrow>
              (\<exists>err. generate cl \<lparr>p_norm = p, eps = e, eps_step = s, max_iter = IntV 0,
                         targeted = t, random_init = r\<rparr> h x kw = Inl (err, [])
                     \<and> invalid_configuration err))
         \<and> (kw_max_iter kw = None \<and> kw_eps kw = None \<and> kw_eps_step kw = None \<longrightarrow>
              generate cl \<lparr>p_norm = p, eps = e, eps_step = s, max_iter = IntV 0,
                  targeted = t, random_init = r\<rparr> h x kw = Inl (MaxIterNotPositive, []))"
proof -
  from assms(1,2) have "\<lfloor>q\<rfloor> = 0" by (simp add: floor_eq_iff)
  with assms show ?thesis
    by (auto simp: init_def base_validate_def generate_def generate_run_def set_params_def
          base_set_params_def override_def)
qed

theorem fractional_max_iter_blocks_generate_witness:
  "(0::real) < 1 / 2 \<and> (1 / 2 :: real) < 1 \<and> (0::real) < 3 / 10 \<and> (1 / 10 :: real) \<le> 3 / 10
   \<and> init LInf (3 / 10) (1 / 10) (FloatV (1 / 2)) False False =
        Inr \<lparr>p_norm = LInf, eps = 3 / 10, eps_step = 1 / 10, max_iter = IntV 0,
             targeted = False, random_init = False\<rparr>
   \<and> generate example_collaborators
        \<lparr>p_norm = LInf, eps = 3 / 10, eps_step = 1 / 10, max_iter = IntV 0,
         targeted = False, random_init = False\<rparr> [[0, 1 / 2]] 0 no_kwargs
      = Inl (MaxIterNotPositive, [])"
proof -
  have a: "(0::real) < 1 / 2" "(1 / 2 :: real) < 1" "(0::real) < 3 / 10"
    "(1 / 10 :: real) \<le> 3 / 10" by simp_all
  from fractional_max_iter_blocks_generate [OF a, where p = LInf and t = False and r = False
      and kw = "no_kwargs :: nat kwargs" and cl = example_collaborators and h = "[[0, 1 / 2]]"
      and x = 0] a
  show ?thesis by (simp add: no_kwargs_def)
qed

section \<open>The active set over the iterations\<close>

text \<open>
  The loop with \<open>n + m\<close> iterations allowed is the loop with \<open>n\<close> allowed, followed,
  unless that one has ended with no index left, by \<open>m\<close> more from the state reached.
  So \<open>for_loop \<dots> n k st\<close> is the state after the first \<open>n\<close> iterations, or the final
  state when the loop has ended earlier.
\<close>

lemma subseq_subset: "subseq xs ys \<Longrightarrow> set xs \<subseteq> set ys"
  by (auto elim: list_emb_set)

lemma for_loop_from:
  assumes "for_loop cl self x targets target_labels n k st = Inr sn"
    and "for_loop cl self x targets target_labels (n + m) k st = Inr s'"
  shows "s' = sn \<or> for_loop cl self x targets target_labels m (k + n) sn = Inr s'"
    and "0 < n \<Longrightarrow> active_indices sn = [] \<Longrightarrow> s' = sn"
  using assms by (auto simp: for_loop_split split: if_splits)

lemma for_loop_active_subseq:
  assumes "for_loop cl self x targets target_labels n k st = Inr st'"
  shows "subseq (active_indices st') (active_indices st)"
  using assms
proof (rule for_loop_invariant [where P = "\<lambda>s. subseq (active_indices s) (active_indices st)"])
  fix k s s'
  assume "subseq (active_indices s) (active_indices st)"
    and "iteration cl self x targets target_labels k s = Inr s'"
  then show "subseq (active_indices s') (active_indices st)"
    using iteration_active_subseq subseq_order.trans by blast
qed simp

lemma for_loop_frame:
  assumes run: "for_loop cl self x targets target_labels n k st = Inr st'"
    and adv: "adv_x st < length (heap st)"
  shows "adv_x st' = adv_x st" and "length (heap st') = length (heap st)"
    and "length (heap st' ! adv_x st') = length (heap st ! adv_x st)"
    and "i \<notin> set (active_indices st) \<Longrightarrow> heap st' ! adv_x st' ! i = heap st ! adv_x st ! i"
proof -
  let ?P = "\<lambda>s. adv_x s = adv_x st \<and> length (heap s) = length (heap st)
     \<and> length (heap s ! adv_x s) = length (heap st ! adv_x st)
     \<and> set (active_indices s) \<subseteq> set (active_indices st)
     \<and> (i \<notin> set (active_indices st) \<longrightarrow> heap s ! adv_x s ! i = heap st ! adv_x st ! i)"
  from run have "?P st'"
  proof (rule for_loop_invariant [where P = ?P])
    fix k s s'
    assume P: "?P s" and it: "iteration cl self x targets target_labels k s = Inr s'"
    from P adv have a: "adv_x s < length (heap s)" by simp
    have sub: "set (active_indices s') \<subseteq> set (active_indices s)"
      using iteration_active_subseq [OF it] by (auto dest: subseq_subset)
    have fr: "heap s' ! adv_x s ! i = heap s ! adv_x s ! i" if "i \<notin> set (active_indices st)"
      using that P iteration_frame(2) [OF it a, of i] by auto
    show "?P s'"
      using P sub fr iteration_adv_x [OF it] iteration_heap_length [OF it]
        iteration_frame(1) [OF it a]
      by auto
  qed simp
  then have c: "adv_x st' = adv_x st" "length (heap st') = length (heap st)"
    "length (heap st' ! adv_x st') = length (heap st ! adv_x st)"
    "i \<notin> set (active_indices st) \<longrightarrow> heap st' ! adv_x st' ! i = heap st ! adv_x st ! i"
    by blast+
  show "adv_x st' = adv_x st" by (rule c(1))
  show "length (heap st') = length (heap st)" by (rule c(2))
  show "length (heap st' ! adv_x st') = length (heap st ! adv_x st)" by (rule c(3))
  show "heap st' ! adv_x st' ! i = heap st ! adv_x st ! i" if "i \<notin> set (active_indices st)"
    using that c(4) by blast
qed

lemma example_loop_two:
  "for_loop example_collaborators (example_attack 5) 0 [[0, 1], [0, 1]] [1, 1] 2 0 example_start
     = Inr example_done"
  by code_simp

lemma example_loop_five:
  "for_loop example_collaborators (example_attack 5) 0 [[0, 1], [0, 1]] [1, 1] (2 + 3) 0 example_start
     = Inr example_done"
  by code_simp

lemma example_loop_first:
  "for_loop example_collaborators (example_attack 2) 0 [[1, 0], [1, 0]] [0, 0] 1 0
     example_labelled = Inr example_first"
  by code_simp

lemma example_loop_second:
  "for_loop example_collaborators (example_attack 2) 0 [[1, 0], [1, 0]] [0, 0] (1 + 1) 0
     example_labelled = Inr example_second"
  by code_simp

text \<open>
  C4. Take the state \<open>sn\<close> after \<open>n\<close> iterations and any later state \<open>s'\<close> of the
  same loop. The active indices of \<open>s'\<close> are a subsequence of those of \<open>sn\<close>: indices
  are only removed, never added again, and the number of active indices does not grow.
  The calls made by the loop are those of at most as many iterations as were allowed.
  Once an iteration has left no active index, no further iteration runs.
\<close>

theorem active_set_monotone:
  assumes "for_loop cl self x targets target_labels n k st = Inr sn"
    and "for_loop cl self x targets target_labels (n + m) k st = Inr s'"
  shows "subseq (active_indices s') (active_indices sn)
     \<and> set (active_indices s') \<subseteq> set (active_indices sn)
     \<and> length (active_indices s') \<le> length (active_indices sn)
     \<and> (\<exists>cs j. calls s' = calls st @ cs \<and> loop_calls cs j \<and> j \<le> n + m)
     \<and> (0 < n \<and> active_indices sn = [] \<longrightarrow> s' = sn)"
proof -
  have sub: "subseq (active_indices s') (active_indices sn)"
    using for_loop_from(1) [OF assms] for_loop_active_subseq by fastforce
  from sub have "set (active_indices s') \<subseteq> set (active_indices sn)"
    by (auto dest: subseq_subset)
  moreover from sub have "length (active_indices s') \<le> length (active_indices sn)"
    by (rule list_emb_length)
  moreover note sub for_loop_calls [OF assms(2)] for_loop_from(2) [OF assms]
  ultimately show ?thesis by blast
qed

theorem active_set_monotone_witness:
  "for_loop example_collaborators (example_attack 5) 0 [[0, 1], [0, 1]] [1, 1] 2 0 example_start
     = Inr example_done
   \<and> for_loop example_collaborators (example_attack 5) 0 [[0, 1], [0, 1]] [1, 1] (2 + 3) 0
       example_start = Inr example_done
   \<and> length (active_indices example_done) \<le> length (active_indices example_done)
   \<and> (\<exists>cs j. calls example_done = calls example_start @ cs \<and> loop_calls cs j \<and> j \<le> 2 + 3)
   \<and> active_indices example_done = []"
  using active_set_monotone [OF example_loop_two example_loop_five]
    example_loop_two example_loop_five
  by (simp add: example_done_def)

text \<open>
  C9. An index that is not active after \<open>n\<close> iterations keeps, in every later state of
  the loop and so in the batch returned, the entry it had then; the batch keeps its
  number of rows and its place in the store, so that entry \<open>i\<close> stays the entry of
  sample \<open>i\<close>.
\<close>

theorem inactive_entries_frozen:
  assumes "for_loop cl self x targets target_labels n k st = Inr sn"
    and "for_loop cl self x targets target_labels (n + m) k st = Inr s'"
    and "adv_x st < length (heap st)"
    and "i \<notin> set (active_indices sn)"
  shows "heap s' ! adv_x s' ! i = heap sn ! adv_x sn ! i
     \<and> length (heap s' ! adv_x s') = length (heap st ! adv_x st)
     \<and> adv_x s' = adv_x st"
proof -
  note a = for_loop_frame(1-3) [OF assms(1,3)]
  from a assms(3) have adv: "adv_x sn < length (heap sn)" by simp
  from for_loop_from(1) [OF assms(1,2)] show ?thesis
  proof
    assume "s' = sn"
    with a show ?thesis by simp
  next
    assume r: "for_loop cl self x targets target_labels m (k + n) sn = Inr s'"
    from for_loop_frame [OF r adv] assms(4) a show ?thesis by simp
  qed
qed

theorem inactive_entries_frozen_witness:
  "for_loop example_collaborators (example_attack 2) 0 [[1, 0], [1, 0]] [0, 0] 1 0
     example_labelled = Inr example_first
   \<and> for_loop example_collaborators (example_attack 2) 0 [[1, 0], [1, 0]] [0, 0] (1 + 1) 0
       example_labelled = Inr example_second
   \<and> adv_x example_labelled < length (heap example_labelled)
   \<and> 1 \<notin> set (active_indices example_first)
   \<and> heap example_second ! adv_x example_second ! 1 = heap example_first ! adv_x example_first ! 1
   \<and> heap example_second ! adv_x example_second ! 1 = 1 / 10
   \<and> length (heap example_second ! adv_x example_second) = 2"
proof -
  have a: "adv_x example_labelled < length (heap example_labelled)"
    by (simp add: example_labelled_def)
  have i: "1 \<notin> set (active_indices example_first)" by (simp add: example_first_def)
  from inactive_entries_frozen [OF example_loop_first example_loop_second a i]
    example_loop_first example_loop_second a i
  show ?thesis by (simp add: example_first_def example_second_def)
qed

section \<open>Which indices stay active\<close>

lemma argmax_rows_Inr:
  "argmax_rows rs = Inr am \<Longrightarrow>
     length am = length rs \<and> (\<forall>j<length rs. argmax (rs ! j) = Inr (am ! j))"
proof (induction rs arbitrary: am)
  case Nil
  then show ?case by simp
next
  case (Cons r rs)
  from Cons.prems obtain i js where i: "argmax r = Inr i" and js: "argmax_rows rs = Inr js"
    and am: "am = i # js"
    by (auto split: sum.splits)
  from Cons.IH [OF js] i show ?case unfolding am by (auto simp: nth_Cons split: nat.splits)
qed

text \<open>
  Every state that the loop reaches from the start of \<open>generate\<close> has an active list
  without repetition and a working array that is in the store.
\<close>

lemma loop_states_well_formed:
  assumes "for_loop cl self x targets labels n k
             \<lparr>heap = h @ [h ! x], adv_x = length h, active_indices = [0..<length (h ! x)],
              calls = c\<rparr> = Inr s"
  shows "distinct (active_indices s) \<and> adv_x s < length (heap s)"
proof -
  let ?s0 = "\<lparr>heap = h @ [h ! x], adv_x = length h, active_indices = [0..<length (h ! x)],
              calls = c\<rparr>"
  have "subseq (active_indices s) (active_indices ?s0)"
    using assms by (rule for_loop_active_subseq)
  then have "distinct (active_indices s)"
    using subseqs_distinctD [of "active_indices s" "[0..<length (h ! x)]"] by simp
  moreover have "adv_x s < length (heap s)"
    using for_loop_frame(1,2) [OF assms] by simp
  ultimately show ?thesis by simp
qed

text \<open>
  C1 as stated fails, in a targeted run. Both samples have the target class 1. After the
  first iteration the classifier predicts 0 for sample 0 and 1 for sample 1: the
  prediction of sample 0 does not match its target and 0 stays active, since the target
  is not reached yet, while sample 1, whose prediction matches, has reached the target
  and is removed.
\<close>

theorem targeted_active_counterexample:
  "targeted example_targeted_once
   \<and> generate_run example_collaborators example_targeted_once [[0, 1 / 5]] 0
       (with_y [[0, 1], [0, 1]])
     = Inr \<lparr>heap = [[0, 1 / 5], [1 / 10, 3 / 10]], adv_x = 1, active_indices = [0],
            calls = [Compute [0, 1 / 5], Projection [1 / 10, 1 / 10],
                     Predict [1 / 10, 3 / 10]]\<rparr>
   \<and> argmax_rows [[0, 1], [0, 1 :: nat]] = Inr [1, 1]
   \<and> argmax_rows (predict example_collaborators [1 / 10, 3 / 10]) = Inr [0, 1]"
  by code_simp

text \<open>
  C1, amended. In every iteration of a targeted call, an index of the active list stays
  active exactly when the arg-max of the classifier's prediction for that sample's
  perturbed input differs from the sample's fixed target label, and is removed exactly
  when the two are equal. This is for a state whose active list has no index twice and
  whose working array is in the store, as every state of a call is
  (\<open>loop_states_well_formed\<close>), and for a classifier that returns one row of scores for
  each input.
\<close>

theorem targeted_active_iff_target_differs:
  fixes cl :: "('x::{plus,minus}, 's::linorder) collaborators"
  assumes tg: "targeted self"
    and it: "iteration cl self x targets target_labels k st = Inr st'"
    and dist: "distinct (active_indices st)"
    and adv: "adv_x st < length (heap st)"
    and len: "length (predict cl (map (nth (heap st' ! adv_x st')) (active_indices st)))
                = length (active_indices st)"
    and j: "j < length (active_indices st)"
  shows "active_indices st ! j \<in> set (active_indices st') \<longleftrightarrow>
           argmax (predict cl (map (nth (heap st' ! adv_x st')) (active_indices st)) ! j)
             \<noteq> Inr (target_labels ! (active_indices st ! j))"
  using it
proof (rule iteration_InrE)
  fix cur ys a1 cur1 xs d s a2 cur2 tl am flags act'
  assume cur2: "take_rows ((heap st)[adv_x st := a1, adv_x st := a2] ! adv_x st)
                  (active_indices st) = Inr cur2"
    and tl: "take_rows target_labels (active_indices st) = Inr tl"
    and am: "argmax_rows (predict cl cur2) = Inr am"
    and flags: "broadcast2 (\<noteq>) tl am = Inr flags"
    and act': "take_rows (active_indices st) (where_true flags) = Inr act'"
    and st': "st' = \<lparr>heap = (heap st)[adv_x st := a1, adv_x st := a2], adv_x = adv_x st,
            active_indices = act',
            calls = calls st @ [Compute cur, Projection d, Predict cur2]\<rparr>"
  from adv have h2: "heap st' ! adv_x st' = a2" unfolding st' by simp
  from cur2 adv have c2: "cur2 = map (nth (heap st' ! adv_x st')) (active_indices st)"
    unfolding h2 by (simp add: take_rows_Inr)
  from tl have tl_eq: "tl = map (nth target_labels) (active_indices st)"
    by (simp add: take_rows_Inr)
  from argmax_rows_Inr [OF am] len c2
  have lam: "length am = length (active_indices st)"
    and amj: "argmax (predict cl cur2 ! j) = Inr (am ! j)"
    using j by auto
  from flags lam tl_eq have fl: "flags = map2 (\<noteq>) tl am"
    by (simp add: broadcast2_def)
  have "active_indices st ! j \<in> set act' \<longleftrightarrow> j < length flags \<and> flags ! j"
    by (rule take_where_member [OF act' dist j])
  also have "\<dots> \<longleftrightarrow> target_labels ! (active_indices st ! j) \<noteq> am ! j"
    using j lam unfolding fl tl_eq by simp
  also have "\<dots> \<longleftrightarrow> argmax (predict cl cur2 ! j) \<noteq> Inr (target_labels ! (active_indices st ! j))"
    unfolding amj by auto
  finally have "active_indices st ! j \<in> set act' \<longleftrightarrow>
      argmax (predict cl cur2 ! j) \<noteq> Inr (target_labels ! (active_indices st ! j))" .
  moreover have "active_indices st' = act'" by (simp add: st')
  ultimately show ?thesis by (simp only: c2)
qed

theorem targeted_active_iff_target_differs_witness:
  "targeted example_targeted
   \<and> iteration example_collaborators example_targeted 0 [[0, 1], [0, 1]] [1, 1] 0
       example_towards = Inr example_towards_first
   \<and> distinct (active_indices example_towards)
   \<and> active_indices example_towards ! 0 \<in> set (active_indices example_towards_first)
   \<and> argmax (predict example_collaborators
         (map (nth (heap example_towards_first ! adv_x example_towards_first))
            (active_indices example_towards)) ! 0) = Inr 0
   \<and> [1, 1 :: nat] ! (active_indices example_towards ! 0) = 1
   \<and> active_indices example_towards ! 1 \<notin> set (active_indices example_towards_first)
   \<and> argmax (predict example_collaborators
         (map (nth (heap example_towards_first ! adv_x example_towards_first))
            (active_indices example_towards)) ! 1) = Inr 1
   \<and> [1, 1 :: nat] ! (active_indices example_towards ! 1) = 1"
proof -
  have tg: "targeted example_targeted" by (simp add: example_targeted_def)
  have it: "iteration example_collaborators example_targeted 0 [[0, 1], [0, 1]] [1, 1] 0
       example_towards = Inr example_towards_first"
    by code_simp
  have d: "distinct (active_indices example_towards)"
    and a: "adv_x example_towards < length (heap example_towards)"
    and j0: "0 < length (active_indices example_towards)"
    and j1: "1 < length (active_indices example_towards)"
    by (simp_all add: example_towards_def)
  have l: "length (predict example_collaborators
         (map (nth (heap example_towards_first ! adv_x example_towards_first))
            (active_indices example_towards))) = length (active_indices example_towards)"
    by code_simp
  have p0: "argmax (predict example_collaborators
         (map (nth (heap example_towards_first ! adv_x example_towards_first))
            (active_indices example_towards)) ! 0) = Inr 0"
    by code_simp
  have p1: "argmax (predict example_collaborators
         (map (nth (heap example_towards_first ! adv_x example_towards_first))
            (active_indices example_towards)) ! 1) = Inr 1"
    by code_simp
  have t0: "[1, 1 :: nat] ! (active_indices example_towards ! 0) = 1"
    and t1: "[1, 1 :: nat] ! (active_indices example_towards ! 1) = 1"
    by code_simp+
  from targeted_active_iff_target_differs [OF tg it d a l j0]
    targeted_active_iff_target_differs [OF tg it d a l j1]
    tg it d p0 p1 t0 t1
  show ?thesis by simp
qed

section \<open>Whole calls\<close>

lemma example_run_unlabelled:
  "generate_run example_collaborators (example_attack 2) [[1 / 2, 0]] 0 no_kwargs
     = Inr example_unlabelled"
  by code_simp

lemma example_run_labelled:
  "generate_run example_collaborators (example_attack 2) [[1 / 2, 0]] 0
     (with_y [[1, 0], [1, 0]]) = Inr example_second"
  by code_simp

lemma subseq_distinct: "subseq xs ys \<Longrightarrow> distinct ys \<Longrightarrow> distinct xs"
  using subseqs_distinctD [of xs ys] by simp

text \<open>
  C3 as stated fails, in a targeted run. With one sample, target class 1 and two
  iterations allowed, the prediction after the first step is class 0, which differs
  from the target; the index is still active after iteration 0, since the target is
  not reached yet, a second iteration runs, and the sample returned is 1/5, not the
  1/10 of the first step.
\<close>

theorem targeted_early_exit_counterexample:
  "targeted example_targeted
   \<and> iteration example_collaborators example_targeted 0 [[0, 1]] [1] 0
       \<lparr>heap = [[0], [0]], adv_x = 1, active_indices = [0], calls = []\<rparr>
     = Inr \<lparr>heap = [[0], [1 / 10]], adv_x = 1, active_indices = [0],
            calls = [Compute [0], Projection [1 / 10], Predict [1 / 10]]\<rparr>
   \<and> argmax_rows [[0, 1 :: nat]] = Inr [1]
   \<and> argmax_rows (predict example_collaborators [1 / 10]) = Inr [0]
   \<and> generate_run example_collaborators example_targeted [[0]] 0 (with_y [[0, 1]])
     = Inr \<lparr>heap = [[0], [1 / 5]], adv_x = 1, active_indices = [],
            calls = [Compute [0], Projection [1 / 10], Predict [1 / 10],
                     Compute [1 / 10], Projection [1 / 5], Predict [1 / 5]]\<rparr>"
  by code_simp

text \<open>
  C3, amended. In a targeted call, if for every sample of the batch the fixed target
  label equals the arg-max prediction computed on the samples after the first
  iteration's perturb-and-project step (the classifier returning one row for each
  sample), then the active list is empty after iteration 0, the loop runs no further
  iteration, and \<open>generate\<close> returns the state of that single iteration.
\<close>

theorem targeted_early_exit:
  fixes cl :: "('x::{plus,minus}, 's::linorder) collaborators"
  assumes tg: "targeted self'"
    and sp: "set_params self kw = Inr self'"
    and mi: "max_iter self' = IntV n" and pos: "0 < n"
    and x: "x < length h"
    and rt: "resolve_targets cl self' (h ! x) kw = Inr (targets, c)"
    and lab: "argmax_rows targets = Inr labels"
    and it: "iteration cl self' x targets labels 0
               \<lparr>heap = h @ [h ! x], adv_x = length h,
                active_indices = [0..<length (h ! x)], calls = c\<rparr> = Inr s1"
    and len: "length (predict cl (heap s1 ! adv_x s1)) = length (h ! x)"
    and match: "\<forall>j<length (h ! x). argmax (predict cl (heap s1 ! adv_x s1) ! j) = Inr (labels ! j)"
  shows "active_indices s1 = [] \<and> generate_run cl self h x kw = Inr s1
         \<and> (\<exists>a d b. calls s1 = c @ [Compute a, Projection d, Predict b])"
proof -
  let ?N = "length (h ! x)"
  let ?s0 = "\<lparr>heap = h @ [h ! x], adv_x = length h, active_indices = [0..<?N], calls = c\<rparr>"
  have adv0: "adv_x ?s0 < length (heap ?s0)" by simp
  have lenN: "length (heap s1 ! adv_x s1) = ?N"
    using iteration_frame(1) [OF it adv0] iteration_adv_x [OF it] by simp
  have empty: "active_indices s1 = []"
    using it
  proof (rule iteration_InrE)
    fix cur ys a1 cur1 xs d s a2 cur2 tl' am flags act'
    assume cur2: "take_rows ((heap ?s0)[adv_x ?s0 := a1, adv_x ?s0 := a2] ! adv_x ?s0)
                    (active_indices ?s0) = Inr cur2"
      and tl': "take_rows labels (active_indices ?s0) = Inr tl'"
      and am: "argmax_rows (predict cl cur2) = Inr am"
      and flags: "broadcast2 (\<noteq>) tl' am = Inr flags"
      and act': "take_rows (active_indices ?s0) (where_true flags) = Inr act'"
      and s1: "s1 = \<lparr>heap = (heap ?s0)[adv_x ?s0 := a1, adv_x ?s0 := a2],
                adv_x = adv_x ?s0, active_indices = act',
                calls = calls ?s0 @ [Compute cur, Projection d, Predict cur2]\<rparr>"
    have a2: "heap s1 ! adv_x s1 = a2" unfolding s1 by simp
    with lenN have la2: "length a2 = ?N" by simp
    from cur2 have "cur2 = map (nth a2) [0..<?N]" by (simp add: take_rows_Inr)
    with la2 have c2: "cur2 = heap s1 ! adv_x s1" unfolding a2 by (metis map_nth)
    from tl' have tl'_eq: "tl' = map (nth labels) [0..<?N]" by (simp add: take_rows_Inr)
    from argmax_rows_Inr [OF am] len c2
    have lam: "length am = ?N"
      and amj: "\<forall>j<?N. argmax (predict cl (heap s1 ! adv_x s1) ! j) = Inr (am ! j)"
      by auto
    from amj match have eq: "\<forall>j<?N. am ! j = labels ! j" by auto
    from flags lam tl'_eq have fl: "flags = map2 (\<noteq>) tl' am" by (simp add: broadcast2_def)
    have "where_true flags = []"
      using eq lam unfolding where_true_def fl tl'_eq by (auto simp: filter_empty_conv)
    with act' have "act' = []" by (simp add: take_rows_Inr)
    then show ?thesis unfolding s1 by simp
  qed
  from pos obtain m where m: "nat n = Suc m" by (cases "nat n") auto
  have "generate_run cl self h x kw = Inr s1"
    using sp mi x rt lab it empty m
    by (simp add: generate_run_def copy_def attempt_def nth_append)
  with empty iteration_calls [OF it] show ?thesis by simp
qed

theorem targeted_early_exit_witness:
  "targeted example_targeted
   \<and> set_params example_targeted (with_y [[0, 1], [0, 1 :: nat]]) = Inr example_targeted
   \<and> max_iter example_targeted = IntV 2
   \<and> resolve_targets example_collaborators example_targeted ([[1 / 5, 1 / 4]] ! 0)
        (with_y [[0, 1], [0, 1]]) = Inr ([[0, 1], [0, 1]], [])
   \<and> argmax_rows [[0, 1], [0, 1 :: nat]] = Inr [1, 1]
   \<and> iteration example_collaborators example_targeted 0 [[0, 1], [0, 1]] [1, 1] 0
        \<lparr>heap = [[1 / 5, 1 / 4]] @ [[[1 / 5, 1 / 4]] ! 0],
         adv_x = length [[1 / 5, 1 / 4 :: real]],
         active_indices = [0..<length ([[1 / 5, 1 / 4 :: real]] ! 0)], calls = []\<rparr>
       = Inr example_reached
   \<and> active_indices example_reached = []
   \<and> generate_run example_collaborators example_targeted [[1 / 5, 1 / 4]] 0
        (with_y [[0, 1], [0, 1]]) = Inr example_reached"
proof -
  have tg: "targeted example_targeted" by (simp add: example_targeted_def)
  have sp: "set_params example_targeted (with_y [[0, 1], [0, 1 :: nat]]) = Inr example_targeted"
    by code_simp
  have mi: "max_iter example_targeted = IntV 2" "(0::int) < 2"
    by (simp_all add: example_targeted_def)
  have x: "0 < length [[1 / 5, 1 / 4 :: real]]" by simp
  have rt: "resolve_targets example_collaborators example_targeted ([[1 / 5, 1 / 4]] ! 0)
        (with_y [[0, 1], [0, 1]]) = Inr ([[0, 1], [0, 1]], [])"
    by code_simp
  have lab: "argmax_rows [[0, 1], [0, 1 :: nat]] = Inr [1, 1]" by code_simp
  have it: "iteration example_collaborators example_targeted 0 [[0, 1], [0, 1]] [1, 1] 0
        \<lparr>heap = [[1 / 5, 1 / 4]] @ [[[1 / 5, 1 / 4]] ! 0],
         adv_x = length [[1 / 5, 1 / 4 :: real]],
         active_indices = [0..<length ([[1 / 5, 1 / 4 :: real]] ! 0)], calls = []\<rparr>
       = Inr example_reached"
    by code_simp
  have len: "length (predict example_collaborators (heap example_reached ! adv_x example_reached))
      = length ([[1 / 5, 1 / 4 :: real]] ! 0)"
    by code_simp
  have match: "\<forall>j<length ([[1 / 5, 1 / 4 :: real]] ! 0).
      argmax (predict example_collaborators (heap example_reached ! adv_x example_reached) ! j)
        = Inr ([1, 1] ! j)"
  proof (intro allI impI)
    fix j :: nat
    assume "j < length ([[1 / 5, 1 / 4 :: real]] ! 0)"
    then consider "j = 0" | "j = 1" by fastforce
    then show "argmax (predict example_collaborators
          (heap example_reached ! adv_x example_reached) ! j) = Inr ([1, 1] ! j)"
    proof cases
      case 1
      show ?thesis unfolding 1 by code_simp
    next
      case 2
      show ?thesis unfolding 2 by code_simp
    qed
  qed
  from targeted_early_exit [OF tg sp mi x rt lab it len match] tg sp mi(1) rt lab it
  show ?thesis by simp
qed

text \<open>
  C7. A targeted attack called without labels raises the error of line 89, with no
  call made to any collaborator. Without labels and untargeted, the targets are the
  label utility applied to one prediction on the whole original batch, and that
  prediction is the only call before the loop; with labels, the targets are the labels
  as given and there is no call before the loop. In a call that returns, the log is
  this prefix followed by the calls of the loop's iterations.
\<close>

theorem label_resolution:
  fixes cl :: "('x::{plus,minus}, 's::linorder) collaborators"
  shows
  "(set_params self kw = Inr self' \<and> targeted self' \<and> kw_y kw = None \<longrightarrow>
      generate_run cl self h x kw = Inl (TargetLabelsRequired, [])
      \<and> generate cl self h x kw = Inl (TargetLabelsRequired, []))
   \<and> (\<not> targeted self' \<and> kw_y kw = None \<longrightarrow>
        resolve_targets cl self' xv kw
          = Inr (get_labels_np_array cl (predict cl xv), [Predict xv]))
   \<and> (\<forall>y. kw_y kw = Some y \<longrightarrow> resolve_targets cl self' xv kw = Inr (y, []))
   \<and> (generate_run cl self h x kw = Inr st \<and> x < length h \<longrightarrow>
        (\<exists>a labels n cs m.
           set_params self kw = Inr a
           \<and> argmax_rows (case kw_y kw of
                 None \<Rightarrow> get_labels_np_array cl (predict cl (h ! x)) | Some y \<Rightarrow> y) = Inr labels
           \<and> max_iter a = IntV n
           \<and> for_loop cl a x
               (case kw_y kw of
                  None \<Rightarrow> get_labels_np_array cl (predict cl (h ! x)) | Some y \<Rightarrow> y)
               labels (nat n) 0
               \<lparr>heap = h @ [h ! x], adv_x = length h, active_indices = [0..<length (h ! x)],
                calls = (case kw_y kw of None \<Rightarrow> [Predict (h ! x)] | Some y \<Rightarrow> [])\<rparr> = Inr st
           \<and> calls st = (case kw_y kw of None \<Rightarrow> [Predict (h ! x)] | Some y \<Rightarrow> []) @ cs
           \<and> loop_calls cs m \<and> m \<le> nat n))"
proof (intro conjI impI allI)
  assume a: "generate_run cl self h x kw = Inr st \<and> x < length h"
  then have run: "generate_run cl self h x kw = Inr st" and x: "x < length h" by simp_all
  let ?T = "case kw_y kw of
      None \<Rightarrow> get_labels_np_array cl (predict cl (h ! x)) | Some y \<Rightarrow> y"
  let ?c = "case kw_y kw of None \<Rightarrow> [Predict (h ! x)] | Some y \<Rightarrow> []"
  from run show "\<exists>a labels n cs m.
           set_params self kw = Inr a \<and> argmax_rows ?T = Inr labels \<and> max_iter a = IntV n
           \<and> for_loop cl a x ?T labels (nat n) 0
               \<lparr>heap = h @ [h ! x], adv_x = length h, active_indices = [0..<length (h ! x)],
                calls = ?c\<rparr> = Inr st
           \<and> calls st = ?c @ cs \<and> loop_calls cs m \<and> m \<le> nat n"
  proof (rule generate_run_InrE)
    fix a targets c labels n
    assume sp: "set_params self kw = Inr a"
      and rt: "resolve_targets cl a ((h @ [h ! x]) ! x) kw = Inr (targets, c)"
      and lab: "argmax_rows targets = Inr labels"
      and mi: "max_iter a = IntV n"
      and loop: "for_loop cl a x targets labels (nat n) 0
         \<lparr>heap = h @ [h ! x], adv_x = length h, active_indices = [0..<length (h ! x)],
          calls = c\<rparr> = Inr st"
    from rt x have "targets = ?T \<and> c = ?c"
      by (auto simp: resolve_targets_def nth_append split: option.splits if_splits)
    then have T: "targets = ?T" and c: "c = ?c" by simp_all
    from for_loop_calls [OF loop] obtain cs m
      where "calls st = c @ cs" "loop_calls cs m" "m \<le> nat n" by auto
    with sp lab mi loop show ?thesis unfolding T c by blast
  qed
qed (auto simp: generate_def generate_run_def resolve_targets_def copy_def)

theorem label_resolution_witness:
  "generate example_collaborators example_targeted [[1 / 2, 0]] 0 no_kwargs
     = Inl (TargetLabelsRequired, [])
   \<and> resolve_targets example_collaborators (example_attack 2) [1 / 2, 0] no_kwargs
     = Inr (get_labels_np_array example_collaborators
              (predict example_collaborators [1 / 2, 0]), [Predict [1 / 2, 0]])
   \<and> resolve_targets example_collaborators (example_attack 2) [1 / 2, 0]
        (with_y [[1, 0], [1, 0]]) = Inr ([[1, 0], [1, 0]], [])
   \<and> generate_run example_collaborators (example_attack 2) [[1 / 2, 0]] 0 no_kwargs
     = Inr example_unlabelled
   \<and> (\<exists>cs m. calls example_unlabelled = Predict [1 / 2, 0] # cs \<and> loop_calls cs m)
   \<and> generate_run example_collaborators (example_attack 2) [[1 / 2, 0]] 0
        (with_y [[1, 0], [1, 0]]) = Inr example_second
   \<and> (\<exists>m. loop_calls (calls example_second) m)"
proof -
  have sp: "set_params example_targeted (no_kwargs :: nat kwargs) = Inr example_targeted"
    by code_simp
  have tg: "targeted example_targeted" "\<not> targeted (example_attack 2)"
    by (simp_all add: example_targeted_def example_attack_def)
  have ky: "kw_y (no_kwargs :: nat kwargs) = None"
    "kw_y (with_y [[1, 0], [1, 0 :: nat]]) = Some [[1, 0], [1, 0]]"
    by (simp_all add: no_kwargs_def with_y_def)
  have x: "0 < length [[1 / 2, 0 :: real]]" by simp
  note t1 = label_resolution [where cl = example_collaborators and self = example_targeted
      and self' = example_targeted and kw = "no_kwargs :: nat kwargs" and h = "[[1 / 2, 0]]"
      and x = 0 and xv = "[1 / 2, 0]" and st = example_unlabelled]
  note t2 = label_resolution [where cl = example_collaborators and self = "example_attack 2"
      and self' = "example_attack 2" and kw = "no_kwargs :: nat kwargs" and h = "[[1 / 2, 0]]"
      and x = 0 and xv = "[1 / 2, 0]" and st = example_unlabelled]
  note t3 = label_resolution [where cl = example_collaborators and self = "example_attack 2"
      and self' = "example_attack 2" and kw = "with_y [[1, 0], [1, 0 :: nat]]"
      and h = "[[1 / 2, 0]]" and x = 0 and xv = "[1 / 2, 0]" and st = example_second]
  from t1 sp tg(1) ky(1)
  have a: "generate example_collaborators example_targeted [[1 / 2, 0]] 0 no_kwargs
     = Inl (TargetLabelsRequired, [])" by blast
  from t2 tg(2) ky(1)
  have b: "resolve_targets example_collaborators (example_attack 2) [1 / 2, 0] no_kwargs
     = Inr (get_labels_np_array example_collaborators
              (predict example_collaborators [1 / 2, 0]), [Predict [1 / 2, 0]])" by blast
  from t3 ky(2)
  have c: "resolve_targets example_collaborators (example_attack 2) [1 / 2, 0]
        (with_y [[1, 0], [1, 0]]) = Inr ([[1, 0], [1, 0]], [])" by blast
  from t2 example_run_unlabelled x obtain cs m
    where "calls example_unlabelled
             = (case kw_y (no_kwargs :: nat kwargs) of
                  None \<Rightarrow> [Predict ([[1 / 2, 0]] ! 0)] | Some y \<Rightarrow> []) @ cs"
      and "loop_calls cs m"
    by blast
  then have d: "\<exists>cs m. calls example_unlabelled = Predict [1 / 2, 0] # cs \<and> loop_calls cs m"
    by (auto simp: no_kwargs_def)
  from t3 example_run_labelled x obtain cs m
    where "calls example_second
             = (case kw_y (with_y [[1, 0], [1, 0 :: nat]]) of
                  None \<Rightarrow> [Predict ([[1 / 2, 0]] ! 0)] | Some y \<Rightarrow> []) @ cs"
      and "loop_calls cs m"
    by blast
  then have e: "\<exists>m. loop_calls (calls example_second) m"
    by (auto simp: with_y_def)
  from a b c d e example_run_unlabelled example_run_labelled show ?thesis by blast
qed

text \<open>
  C2. In a call that returns, every sample index that is not active at the end holds
  the original sample plus a row returned by the projection; so, the projection
  returning rows inside the ball of the configured norm and radius, the norm of the
  difference between the returned and the original sample is at most the budget. The
  arithmetic of the samples is exact: that of a commutative group.
\<close>

theorem perturbation_within_budget:
  fixes cl :: "('x::ab_group_add, 's::linorder) collaborators"
    and nrm :: "norm_order \<Rightarrow> 'x \<Rightarrow> real"
  assumes run: "generate_run cl self h x kw = Inr st"
    and sp: "set_params self kw = Inr self'"
    and x: "x < length h" and i: "i < length (h ! x)"
    and out: "i \<notin> set (active_indices st)"
    and ball: "\<And>d. list_all (\<lambda>n. nrm (p_norm self') n \<le> eps self')
                 (projection cl d (eps self') (p_norm self'))"
  shows "nrm (p_norm self') (heap st ! adv_x st ! i - h ! x ! i) \<le> eps self'"
proof -
  let ?Q = "\<lambda>s. \<exists>n. nrm (p_norm self') n \<le> eps self' \<and> heap s ! length h ! i = h ! x ! i + n"
  let ?P = "\<lambda>s. adv_x s = length h \<and> length (heap s) = Suc (length h) \<and> heap s ! x = h ! x
     \<and> distinct (active_indices s) \<and> (i \<in> set (active_indices s) \<or> ?Q s)"
  from run have "?P st"
  proof (rule generate_run_InrE)
    fix a targets c labels n
    assume "set_params self kw = Inr a"
      and loop: "for_loop cl a x targets labels (nat n) 0
         \<lparr>heap = h @ [h ! x], adv_x = length h, active_indices = [0..<length (h ! x)],
          calls = c\<rparr> = Inr st"
    with sp have a: "a = self'" by simp
    from loop show ?thesis unfolding a
    proof (rule for_loop_invariant [where P = ?P])
      show "?P \<lparr>heap = h @ [h ! x], adv_x = length h, active_indices = [0..<length (h ! x)],
          calls = c\<rparr>"
        using x i by (simp add: nth_append)
    next
      fix k s s'
      assume P: "?P s" and it: "iteration cl self' x targets labels k s = Inr s'"
      from P have adv: "adv_x s < length (heap s)" and ne: "x \<noteq> adv_x s"
        and dist: "distinct (active_indices s)" and advh: "adv_x s = length h"
        using x by simp_all
      have hx: "heap s' ! x = h ! x" using iteration_heap_other [OF it, of x] ne P by simp
      have d': "distinct (active_indices s')"
        using iteration_active_subseq [OF it] dist by (rule subseq_distinct)
      have "?Q s'"
      proof (cases "i \<in> set (active_indices s)")
        case True
        from iteration_written [OF it adv ne dist True] obtain d n
          where n: "n \<in> set (projection cl d (eps self') (p_norm self'))"
            and w: "heap s' ! adv_x s ! i = heap s ! x ! i + n" by blast
        from ball [of d] n have "nrm (p_norm self') n \<le> eps self'"
          by (simp add: list_all_iff)
        with w P advh show ?thesis by auto
      next
        case False
        with P have "?Q s" by blast
        moreover have "heap s' ! adv_x s ! i = heap s ! adv_x s ! i"
          using iteration_frame(2) [OF it adv False] .
        ultimately show ?thesis using advh by simp
      qed
      with hx d' iteration_adv_x [OF it] iteration_heap_length [OF it] P show "?P s'" by simp
    qed
  qed
  with out obtain n where "nrm (p_norm self') n \<le> eps self'"
    and "heap st ! adv_x st ! i = h ! x ! i + n" by auto
  then show ?thesis by simp
qed

theorem perturbation_within_budget_witness:
  "generate_run example_collaborators (example_attack 2) [[1 / 2, 0]] 0
     (with_y [[1, 0], [1, 0]]) = Inr example_second
   \<and> set_params (example_attack 2) (with_y [[1, 0], [1, 0 :: nat]]) = Inr (example_attack 2)
   \<and> 1 \<notin> set (active_indices example_second)
   \<and> (\<forall>d. list_all (\<lambda>n. example_norm (p_norm (example_attack 2)) n \<le> eps (example_attack 2))
          (projection example_collaborators d (eps (example_attack 2))
             (p_norm (example_attack 2))))
   \<and> example_norm LInf (heap example_second ! adv_x example_second ! 1 - [[1 / 2, 0]] ! 0 ! 1)
       \<le> 3 / 10"
proof -
  have sp: "set_params (example_attack 2) (with_y [[1, 0], [1, 0 :: nat]])
      = Inr (example_attack 2)"
    by code_simp
  have x: "0 < length [[1 / 2, 0 :: real]]" and i: "1 < length ([[1 / 2, 0 :: real]] ! 0)"
    by simp_all
  have out: "1 \<notin> set (active_indices example_second)" by (simp add: example_second_def)
  have ball: "list_all (\<lambda>n. example_norm (p_norm (example_attack 2)) n \<le> eps (example_attack 2))
          (projection example_collaborators d (eps (example_attack 2))
             (p_norm (example_attack 2)))" for d
    by (auto simp: list_all_iff example_norm_def example_attack_def example_collaborators_def)
  from perturbation_within_budget [where nrm = example_norm, OF example_run_labelled sp x i out ball]
    example_run_labelled sp out ball
  show ?thesis by (simp add: example_attack_def)
qed

section \<open>The same comparison in an untargeted run\<close>

text \<open>
  Line 107 does not look at the \<^verbatim>\<open>targeted\<close> flag. In an untargeted run the targets
  are the labels that the attack moves away from (line 91 calls them the correct
  outputs), so a prediction that differs from the target is a sample already
  misclassified. The two runs below are untargeted, with target label 0. In the first,
  after one iteration, sample 0 is predicted as class 1 and is the one index kept
  active, while sample 1, still predicted as class 0, is removed and is not perturbed
  again. In the second, the only sample is predicted as class 1 after the first step
  and is perturbed a second time.
\<close>

lemma untargeted_keeps_misclassified:
  "\<not> targeted (example_attack 1)
   \<and> generate_run example_collaborators (example_attack 1) [[1 / 2, 0]] 0
       (with_y [[1, 0], [1, 0]])
     = Inr \<lparr>heap = [[1 / 2, 0], [3 / 5, 1 / 10]], adv_x = 1, active_indices = [0],
            calls = [Compute [1 / 2, 0], Projection [1 / 10, 1 / 10],
                     Predict [3 / 5, 1 / 10]]\<rparr>
   \<and> argmax_rows [[1, 0], [1, 0 :: nat]] = Inr [0, 0]
   \<and> argmax_rows (predict example_collaborators [3 / 5, 1 / 10]) = Inr [1, 0]"
  by code_simp

lemma untargeted_continues_when_misclassified:
  "\<not> targeted (example_attack 2)
   \<and> argmax_rows [[1, 0 :: nat]] = Inr [0]
   \<and> argmax_rows (predict example_collaborators [3 / 5]) = Inr [1]
   \<and> generate_run example_collaborators (example_attack 2) [[1 / 2]] 0 (with_y [[1, 0]])
     = Inr \<lparr>heap = [[1 / 2], [7 / 10]], adv_x = 1, active_indices = [0],
            calls = [Compute [1 / 2], Projection [1 / 10], Predict [3 / 5],
                     Compute [3 / 5], Projection [1 / 5], Predict [7 / 10]]\<rparr>"
  by code_simp

end
